theory Spec2Isabelle
  imports Main "HOL-Library.Product_Lexorder" "HOL-Library.Multiset"
begin

section \<open>The station: resources, timing constants, routes\<close>

text \<open>
  \<^verbatim>\<open>station_simulation.py\<close> builds the station on the SimPy kernel: eight track
  segments and seven points, each a \<^verbatim>\<open>simpy.Resource(env, capacity=1)\<close>. The
  attribute names of \<^verbatim>\<open>StationSimulation.__init__\<close> are kept.
\<close>

datatype track =
    line1_up_platform | line2_up_main_approach | line2_up_main_exit
  | line3_down_main_approach | line3_down_main_exit | line4_down_platform
  | line5_down_siding | mainline_crossover

datatype point = P1 | P2 | P3 | P4 | PX1 | PX2 | P5

datatype resource = Track track | Point point

fun point_name :: "point \<Rightarrow> string" where
  "point_name P1 = ''P1''"
| "point_name P2 = ''P2''"
| "point_name P3 = ''P3''"
| "point_name P4 = ''P4''"
| "point_name PX1 = ''PX1''"
| "point_name PX2 = ''PX2''"
| "point_name P5 = ''P5''"

text \<open>
  The four module-level constants of \<^verbatim>\<open>station_simulation.py\<close>. They are globals of
  the module: a path reads them when it creates a timeout, and \<^verbatim>\<open>app.py\<close> assigns
  to them. They are natural numbers here: the module sets them to 25, 40, 50 and 10, and
  the only assignments are \<^verbatim>\<open>int(c / multiplier)\<close> with a positive multiplier and
  the restoring of a saved value.
\<close>

record timing =
  TIME_MAIN_SEGMENT :: nat
  TIME_PLATFORM_SEGMENT :: nat
  TIME_AT_PLATFORM :: nat
  TIME_ON_CROSSOVER :: nat

definition module_constants :: timing where
  "module_constants =
     \<lparr>TIME_MAIN_SEGMENT = 25, TIME_PLATFORM_SEGMENT = 40,
      TIME_AT_PLATFORM = 50, TIME_ON_CROSSOVER = 10\<rparr>"

text \<open>
  The five path generators have one shape: a \<^verbatim>\<open>with\<close> over the requests of the
  points, the assignment of one position to each of them, the \<^verbatim>\<open>points_set\<close> log
  entry, and then, inside that \<^verbatim>\<open>with\<close>, one inner \<^verbatim>\<open>with\<close> per track
  segment (request, \<^verbatim>\<open>enter_track\<close> entry, timeout). A path is the data of that
  shape; \<open>resume_path\<close> below runs it. A segment names the constant its timeout reads.
\<close>

record path =
  switches :: "point list"
  position :: string
  segments :: "(track \<times> string \<times> (timing \<Rightarrow> nat)) list"

definition path_up_main :: path where
  "path_up_main =
     \<lparr>switches = [P1, P2], position = ''normal'',
      segments = [(line2_up_main_approach, ''L2_Approach'', TIME_MAIN_SEGMENT),
                  (line2_up_main_exit, ''L2_Exit'', TIME_MAIN_SEGMENT)]\<rparr>"

definition path_up_platform :: path where
  "path_up_platform =
     \<lparr>switches = [P1, P2], position = ''reverse'',
      segments = [(line2_up_main_approach, ''L2_Approach'', TIME_ON_CROSSOVER),
                  (line1_up_platform, ''L1_Platform_2'', TIME_AT_PLATFORM)]\<rparr>"

definition path_down_main :: path where
  "path_down_main =
     \<lparr>switches = [P3, P4], position = ''normal'',
      segments = [(line3_down_main_approach, ''L3_Approach'', TIME_MAIN_SEGMENT),
                  (line3_down_main_exit, ''L3_Exit'', TIME_MAIN_SEGMENT)]\<rparr>"

definition path_down_platform :: path where
  "path_down_platform =
     \<lparr>switches = [P3, P4], position = ''reverse'',
      segments = [(line3_down_main_approach, ''L3_Approach'', TIME_ON_CROSSOVER),
                  (line4_down_platform, ''L4_Platform_1'', TIME_AT_PLATFORM)]\<rparr>"

definition path_down_siding :: path where
  "path_down_siding =
     \<lparr>switches = [P3, P4, P5], position = ''reverse'',
      segments = [(line3_down_main_approach, ''L3_Approach'', TIME_ON_CROSSOVER),
                  (line4_down_platform, ''L4_Platform_1'', TIME_PLATFORM_SEGMENT),
                  (line5_down_siding, ''L5_Siding'', TIME_AT_PLATFORM)]\<rparr>"

text \<open>
  \<^verbatim>\<open>path_map.get(route_decision)\<close>: the route decision is a string or
  \<^verbatim>\<open>None\<close> (what \<^verbatim>\<open>action_to_route.get\<close> gives for an unknown action); any key
  outside the dictionary, \<^verbatim>\<open>None\<close> included, gives \<^verbatim>\<open>None\<close>.
\<close>

definition path_map :: "string \<Rightarrow> path option" where
  "path_map r =
     (if r = ''UP_MAIN'' then Some path_up_main
      else if r = ''UP_PLATFORM'' then Some path_up_platform
      else if r = ''DOWN_MAIN'' then Some path_down_main
      else if r = ''DOWN_PLATFORM'' then Some path_down_platform
      else if r = ''DOWN_SIDING'' then Some path_down_siding
      else None)"

fun path_map_get :: "string option \<Rightarrow> path option" where
  "path_map_get None = None"
| "path_map_get (Some r) = path_map r"

section \<open>The event log\<close>

datatype details =
    Route "string option"
  | Points_set "string list" string
  | Enter_track string
  | No_details

record log_entry =
  time :: nat
  train_id :: string
  direction :: string
  event :: string
  details :: details

section \<open>The simulation state\<close>

text \<open>
  A train is two SimPy processes: the \<^verbatim>\<open>train_process\<close> generator and the path
  generator it starts and waits for. \<open>pc\<close> is the place where the two generators of one
  train are suspended.
\<close>

datatype pc =
    Created
  | Path_created
  | Wait_points
  | Wait_track nat
  | Dwell nat
  | Path_returned
  | Returned

record proc =
  p_train_id :: string
  p_direction :: string
  p_priority :: string
  p_route_decision :: "string option"
  pc :: pc
  cond_count :: "nat list"

text \<open>
  The events of the kernel's queue. SimPy keeps with each event the list of its
  callbacks; here the kind of the event determines them (see \<open>fire\<close>). The first
  argument is the index of the train (or of the runner) the event belongs to.
\<close>

datatype event =
    Initialize_train nat
  | Initialize_path nat
  | Request nat resource
  | Release nat resource
  | Condition nat nat
  | Timeout nat
  | Process_path nat
  | Process_train nat
  | Initialize_runner nat
  | Runner_timeout nat
  | Process_runner nat
  | Until

record train =
  t_train_id :: string
  t_direction :: string
  t_priority :: string
  t_route_decision :: "string option"

datatype command = Spawn train | Wait nat

record resource_state =
  users :: "nat list"
  put_queue :: "nat list"

text \<open>
  One record for the \<^verbatim>\<open>simpy.Environment\<close> (\<open>now\<close>, the counter \<open>eid\<close>, the
  \<open>queue\<close> of \<^verbatim>\<open>(time, priority, eid, event)\<close> entries) and the
  \<^verbatim>\<open>StationSimulation\<close> bound to it (\<open>event_log\<close>, the resources, the \<open>state\<close> of
  every point), with the generators that are alive. The heap of the queue is a list
  sorted by the key \<^verbatim>\<open>(time, priority, eid)\<close>, compared as Python compares tuples.
\<close>

type_synonym key = "nat \<times> nat \<times> nat"

record sim =
  now :: nat
  eid :: nat
  queue :: "(key \<times> event) list"
  event_log :: "log_entry list"
  resources :: "resource \<Rightarrow> resource_state"
  points :: "point \<Rightarrow> string"
  procs :: "proc list"
  runners :: "command list list"

definition URGENT :: nat where "URGENT = 0"
definition NORMAL :: nat where "NORMAL = 1"
definition capacity :: nat where "capacity = 1"

definition StationSimulation :: sim where
  "StationSimulation =
     \<lparr>now = 0, eid = 0, queue = [], event_log = [],
      resources = (\<lambda>r. \<lparr>users = [], put_queue = []\<rparr>),
      points = (\<lambda>p. ''normal''),
      procs = [], runners = []\<rparr>"

section \<open>The kernel\<close>

text \<open>\<^verbatim>\<open>Environment.schedule\<close>: push \<^verbatim>\<open>(now + delay, priority, next(eid), event)\<close>.\<close>

definition schedule_event :: "event \<Rightarrow> nat \<Rightarrow> nat \<Rightarrow> sim \<Rightarrow> sim" where
  "schedule_event ev priority delay s =
     s\<lparr>queue := insort_key fst ((now s + delay, priority, eid s), ev) (queue s),
       eid := eid s + 1\<rparr>"

definition log_event :: "string \<Rightarrow> string \<Rightarrow> string \<Rightarrow> details \<Rightarrow> sim \<Rightarrow> sim" where
  "log_event tid dir event_type d s =
     s\<lparr>event_log := event_log s @
        [\<lparr>time = now s, train_id = tid, direction = dir, event = event_type, details = d\<rparr>]\<rparr>"

text \<open>
  \<^verbatim>\<open>Resource\<close>: a request is appended to the queue of the resource, and
  \<^verbatim>\<open>_trigger_put\<close> looks at the head of that queue: with fewer users than the
  capacity the head becomes a user and its event succeeds (is scheduled now); the loop
  stops after the head, since \<^verbatim>\<open>_do_put\<close> returns nothing. A release removes the
  request from the users if it is there and succeeds at once; when the release event is
  processed its callback is \<^verbatim>\<open>_trigger_put\<close>. Leaving a \<^verbatim>\<open>with\<close> cancels the
  request if it is still queued and then releases it.
\<close>

definition trigger_put :: "resource \<Rightarrow> sim \<Rightarrow> sim" where
  "trigger_put r s =
     (case put_queue (resources s r) of
        [] \<Rightarrow> s
      | t # rest \<Rightarrow>
          if length (users (resources s r)) < capacity
          then schedule_event (Request t r) NORMAL 0
                 (s\<lparr>resources := (resources s)
                      (r := \<lparr>users = users (resources s r) @ [t], put_queue = rest\<rparr>)\<rparr>)
          else s)"

definition request :: "nat \<Rightarrow> resource \<Rightarrow> sim \<Rightarrow> sim" where
  "request t r s =
     trigger_put r
       (s\<lparr>resources := (resources s)
            (r := (resources s r)\<lparr>put_queue := put_queue (resources s r) @ [t]\<rparr>)\<rparr>)"

definition cancel :: "nat \<Rightarrow> resource \<Rightarrow> sim \<Rightarrow> sim" where
  "cancel t r s =
     s\<lparr>resources := (resources s)
         (r := (resources s r)\<lparr>put_queue := remove1 t (put_queue (resources s r))\<rparr>)\<rparr>"

definition release :: "nat \<Rightarrow> resource \<Rightarrow> sim \<Rightarrow> sim" where
  "release t r s =
     schedule_event (Release t r) NORMAL 0
       (s\<lparr>resources := (resources s)
            (r := (resources s r)\<lparr>users := remove1 t (users (resources s r))\<rparr>)\<rparr>)"

definition exit_request :: "nat \<Rightarrow> resource \<Rightarrow> sim \<Rightarrow> sim" where
  "exit_request t r s = release t r (cancel t r s)"

section \<open>The generators\<close>

definition set_pc :: "nat \<Rightarrow> pc \<Rightarrow> sim \<Rightarrow> sim" where
  "set_pc t v s = s\<lparr>procs := (procs s)[t := (procs s ! t)\<lparr>pc := v\<rparr>]\<rparr>"

definition set_count :: "nat \<Rightarrow> nat list \<Rightarrow> sim \<Rightarrow> sim" where
  "set_count t c s = s\<lparr>procs := (procs s)[t := (procs s ! t)\<lparr>cond_count := c\<rparr>]\<rparr>"

definition set_point :: "string \<Rightarrow> point \<Rightarrow> sim \<Rightarrow> sim" where
  "set_point v x s = s\<lparr>points := (points s)(x := v)\<rparr>"

text \<open>
  \<^verbatim>\<open>env.process(station.train_process(train_id, direction, priority, route))\<close>: a
  new process, whose \<^verbatim>\<open>Initialize\<close> event is scheduled with priority URGENT.
\<close>

definition process_train :: "train \<Rightarrow> sim \<Rightarrow> sim" where
  "process_train tr s =
     schedule_event (Initialize_train (length (procs s))) URGENT 0
       (s\<lparr>procs := procs s @
          [\<lparr>p_train_id = t_train_id tr, p_direction = t_direction tr,
            p_priority = t_priority tr, p_route_decision = t_route_decision tr,
            pc = Created, cond_count = []\<rparr>]\<rparr>)"

text \<open>
  \<^verbatim>\<open>train_process\<close>. At its start: the \<^verbatim>\<open>spawned\<close> entry, then either the path
  process is created and waited for, or (no path for the route) an error line is
  printed and the generator goes on to the \<^verbatim>\<open>finished\<close> entry and returns, without
  having yielded. When the path process has ended: the \<^verbatim>\<open>finished\<close> entry.
\<close>

definition resume_train :: "nat \<Rightarrow> sim \<Rightarrow> sim" where
  "resume_train t s =
     (let pr = procs s ! t in
      case pc pr of
        Created \<Rightarrow>
          (let s1 = log_event (p_train_id pr) (p_direction pr) ''spawned''
                      (Route (p_route_decision pr)) s
           in case path_map_get (p_route_decision pr) of
                Some p \<Rightarrow> set_pc t Path_created (schedule_event (Initialize_path t) URGENT 0 s1)
              | None \<Rightarrow>
                  set_pc t Returned
                    (schedule_event (Process_train t) NORMAL 0
                       (log_event (p_train_id pr) (p_direction pr) ''finished'' No_details s1)))
      | Path_returned \<Rightarrow>
          set_pc t Returned
            (schedule_event (Process_train t) NORMAL 0
               (log_event (p_train_id pr) (p_direction pr) ''finished'' No_details s))
      | _ \<Rightarrow> s)"

text \<open>
  Entering segment \<open>i\<close> of a path: the request of its track, on which the generator is
  suspended. After the last segment the outer \<^verbatim>\<open>with\<close> is left, which exits the
  requests of the points from the last to the first, and the generator returns: its
  process event is scheduled.
\<close>

definition enter_segment :: "nat \<Rightarrow> path \<Rightarrow> nat \<Rightarrow> sim \<Rightarrow> sim" where
  "enter_segment t p i s =
     (if i < length (segments p)
      then set_pc t (Wait_track i) (request t (Track (fst (segments p ! i))) s)
      else set_pc t Path_returned
             (schedule_event (Process_path t) NORMAL 0
                (fold (\<lambda>x. exit_request t (Point x)) (rev (switches p)) s)))"

text \<open>
  The path generator of train \<open>t\<close>, resumed where it is suspended. \<open>tm\<close> is the value
  of the module's constants at this moment.
\<close>

definition resume_path :: "timing \<Rightarrow> nat \<Rightarrow> sim \<Rightarrow> sim" where
  "resume_path tm t s =
     (let pr = procs s ! t in
      case path_map_get (p_route_decision pr) of
        None \<Rightarrow> s
      | Some p \<Rightarrow>
         (case pc pr of
            Path_created \<Rightarrow>
              set_pc t Wait_points
                (set_count t (replicate (length (switches p) - 1) 0)
                   (fold (\<lambda>x. request t (Point x)) (switches p) s))
          | Wait_points \<Rightarrow>
              enter_segment t p 0
                (log_event (p_train_id pr) (p_direction pr) ''points_set''
                   (Points_set (map point_name (switches p)) (position p))
                   (fold (set_point (position p)) (switches p) s))
          | Wait_track i \<Rightarrow>
              (case segments p ! i of (trk, name, dur) \<Rightarrow>
                 set_pc t (Dwell i)
                   (schedule_event (Timeout t) NORMAL (dur tm)
                      (log_event (p_train_id pr) (p_direction pr) ''enter_track''
                         (Enter_track name) s)))
          | Dwell i \<Rightarrow>
              enter_segment t p (Suc i)
                (exit_request t (Track (fst (segments p ! i))) s)
          | _ \<Rightarrow> s))"

text \<open>
  \<^verbatim>\<open>p1_req & p2_req\<close> is a condition over two events, and
  \<^verbatim>\<open>p3_req & p4_req & p5_req\<close> is \<^verbatim>\<open>(p3_req & p4_req) & p5_req\<close>: condition
  \<open>0\<close> is over the first two requests, condition \<open>k + 1\<close> over condition \<open>k\<close> and request
  \<open>k + 2\<close>. \<^verbatim>\<open>Condition._check\<close> counts the processed events of a condition, which
  succeeds (is scheduled now) when both are.
\<close>

definition check :: "nat \<Rightarrow> nat \<Rightarrow> sim \<Rightarrow> sim" where
  "check t k s =
     (let c = cond_count (procs s ! t);
          s1 = set_count t (c[k := Suc (c ! k)]) s
      in if Suc (c ! k) = 2 then schedule_event (Condition t k) NORMAL 0 s1 else s1)"

fun index_of :: "'a \<Rightarrow> 'a list \<Rightarrow> nat" where
  "index_of x [] = 0"
| "index_of x (y # ys) = (if x = y then 0 else Suc (index_of x ys))"

text \<open>
  The test runner of \<^verbatim>\<open>station_simulation.py\<close> is a generator that starts trains
  and yields timeouts in between; a runner here is the list of its commands still to
  run.
\<close>

fun resume_runner :: "nat \<Rightarrow> command list \<Rightarrow> sim \<Rightarrow> sim" where
  "resume_runner k [] s =
     schedule_event (Process_runner k) NORMAL 0 (s\<lparr>runners := (runners s)[k := []]\<rparr>)"
| "resume_runner k (Spawn tr # cs) s = resume_runner k cs (process_train tr s)"
| "resume_runner k (Wait d # cs) s =
     schedule_event (Runner_timeout k) NORMAL d (s\<lparr>runners := (runners s)[k := cs]\<rparr>)"

definition process_runner :: "command list \<Rightarrow> sim \<Rightarrow> sim" where
  "process_runner cs s =
     schedule_event (Initialize_runner (length (runners s))) URGENT 0
       (s\<lparr>runners := runners s @ [cs]\<rparr>)"

text \<open>
  The callbacks of an event, in the order SimPy runs them. A request event first calls
  \<^verbatim>\<open>_trigger_get\<close> of its resource, which has nothing to do (a release never
  waits); then the request of a track resumes the path, and the request of a point is
  checked by its condition. A condition is checked by the next one, and the last
  condition resumes the path. Nothing waits for the process event of a
  \<^verbatim>\<open>train_process\<close> or of a runner.
\<close>

definition fire :: "timing \<Rightarrow> event \<Rightarrow> sim \<Rightarrow> sim" where
  "fire tm ev s =
     (case ev of
        Initialize_train t \<Rightarrow> resume_train t s
      | Initialize_path t \<Rightarrow> resume_path tm t s
      | Request t r \<Rightarrow>
          (case r of
             Track trk \<Rightarrow> resume_path tm t s
           | Point x \<Rightarrow>
               (case path_map_get (p_route_decision (procs s ! t)) of
                  None \<Rightarrow> s
                | Some p \<Rightarrow> check t (index_of x (switches p) - 1) s))
      | Release t r \<Rightarrow> trigger_put r s
      | Condition t k \<Rightarrow>
          if Suc k < length (cond_count (procs s ! t)) then check t (Suc k) s
          else resume_path tm t s
      | Timeout t \<Rightarrow> resume_path tm t s
      | Process_path t \<Rightarrow> resume_train t s
      | Process_train t \<Rightarrow> s
      | Initialize_runner k \<Rightarrow> resume_runner k (runners s ! k) s
      | Runner_timeout k \<Rightarrow> resume_runner k (runners s ! k) s
      | Process_runner k \<Rightarrow> s
      | Until \<Rightarrow> s)"

text \<open>
  \<^verbatim>\<open>Environment.step\<close>: pop the least entry, set \<open>now\<close> to its time, run its
  callbacks. On an empty queue it raises \<^verbatim>\<open>EmptySchedule\<close> (\<open>None\<close>).
\<close>

definition step :: "timing \<Rightarrow> sim \<Rightarrow> sim option" where
  "step tm s =
     (case queue s of
        [] \<Rightarrow> None
      | (k, ev) # rest \<Rightarrow> Some (fire tm ev (s\<lparr>now := fst k, queue := rest\<rparr>)))"

text \<open>
  \<^verbatim>\<open>Environment.run()\<close> steps until \<^verbatim>\<open>EmptySchedule\<close>. The loop need not end,
  so the result is an option: \<open>None\<close> is a run that never returns.
\<close>

partial_function (option) run :: "timing \<Rightarrow> sim \<Rightarrow> sim option" where
  "run tm s = (case step tm s of None \<Rightarrow> Some s | Some s' \<Rightarrow> run tm s')"

declare run.simps [code]


text \<open>
  \<^verbatim>\<open>Environment.run(until=at)\<close> schedules a stop event at time \<open>at\<close> with priority
  URGENT and steps until that event is processed. It raises \<^verbatim>\<open>ValueError\<close> when
  \<open>at\<close> is not after \<open>now\<close>, and \<^verbatim>\<open>RuntimeError\<close> when the queue runs empty first
  (which it cannot, with the stop event in it).
\<close>

datatype run_error = ValueError | RuntimeError

partial_function (option) run_loop :: "timing \<Rightarrow> sim \<Rightarrow> (run_error + sim) option" where
  "run_loop tm s =
     (case queue s of
        [] \<Rightarrow> Some (Inl RuntimeError)
      | (k, ev) # rest \<Rightarrow>
          (case step tm s of
             None \<Rightarrow> Some (Inl RuntimeError)
           | Some s' \<Rightarrow> (case ev of Until \<Rightarrow> Some (Inr s') | _ \<Rightarrow> run_loop tm s')))"

declare run_loop.simps [code]

definition run_until :: "timing \<Rightarrow> nat \<Rightarrow> sim \<Rightarrow> (run_error + sim) option" where
  "run_until tm at s =
     (if at \<le> now s then Some (Inl ValueError)
      else run_loop tm (schedule_event Until URGENT (at - now s) s))"

section \<open>The Gymnasium environment\<close>

text \<open>
  \<^verbatim>\<open>StationTrainEnv\<close> of \<^verbatim>\<open>train_env.py\<close>. The schedule is the data frame read
  from the schedule file, a list of rows with the columns the code reads. An action is
  an integer, or a NumPy array holding one, which \<^verbatim>\<open>step\<close> unwraps with
  \<^verbatim>\<open>item()\<close>. Observations are the two numbers of the array, \<open>info\<close> is the empty
  dictionary.
\<close>

record schedule_row =
  row_train_id :: string
  row_direction :: string
  row_priority :: string

record station_train_env =
  schedule_file :: "schedule_row list"
  schedule :: "schedule_row list"
  station :: sim

datatype action = Py_int int | Np_array int

definition action_to_route :: "int \<Rightarrow> string option" where
  "action_to_route a =
     (if a = 0 then Some ''UP_MAIN''
      else if a = 1 then Some ''UP_PLATFORM''
      else if a = 2 then Some ''DOWN_MAIN''
      else if a = 3 then Some ''DOWN_PLATFORM''
      else if a = 4 then Some ''DOWN_SIDING''
      else None)"

definition get_observation :: "station_train_env \<Rightarrow> nat list" where
  "get_observation e =
     (case schedule e of
        [] \<Rightarrow> [0, 0]
      | next_train # rest \<Rightarrow>
          [if row_priority next_train = ''high'' then 1 else 0,
           if row_direction next_train = ''south'' then 1 else 0])"

definition reset :: "station_train_env \<Rightarrow> station_train_env \<times> nat list \<times> (string \<times> string) list" where
  "reset e =
     (let e' = e\<lparr>schedule := schedule_file e, station := StationSimulation\<rparr>
      in (e', get_observation e', []))"

text \<open>Python's \<^verbatim>\<open>x in y\<close> on strings: \<open>x\<close> occurs in \<open>y\<close> as a substring.\<close>

fun py_in :: "string \<Rightarrow> string \<Rightarrow> bool" where
  "py_in x [] = (x = [])"
| "py_in x (c # cs) = (take (length x) (c # cs) = x \<or> py_in x cs)"

text \<open>
  \<^verbatim>\<open>StationTrainEnv.step\<close>. The result is \<open>None\<close> when \<^verbatim>\<open>simpy_env.run()\<close> does
  not return; otherwise the environment after the call and the tuple
  \<^verbatim>\<open>(observation, reward, done, truncated, info)\<close>.
\<close>

definition env_step ::
  "timing \<Rightarrow> action \<Rightarrow> station_train_env \<Rightarrow>
     (station_train_env \<times> nat list \<times> int \<times> bool \<times> bool \<times> (string \<times> string) list) option" where
  "env_step tm action e =
     (let a = (case action of Np_array v \<Rightarrow> v | Py_int v \<Rightarrow> v) in
      case schedule e of
        [] \<Rightarrow> Some (e, get_observation e, 0, True, False, [])
      | train_info # rest \<Rightarrow>
          (let route_decision = action_to_route a in
           case run tm
                  (process_train
                     \<lparr>t_train_id = row_train_id train_info,
                      t_direction = row_direction train_info,
                      t_priority = row_priority train_info,
                      t_route_decision = route_decision\<rparr>
                     (station e)) of
             None \<Rightarrow> None
           | Some s' \<Rightarrow>
               (let e' = e\<lparr>schedule := rest, station := s'\<rparr>;
                    is_valid_route =
                      (row_direction train_info = ''north'' \<and>
                         route_decision \<in> set [Some ''UP_MAIN'', Some ''UP_PLATFORM''] \<or>
                       row_direction train_info = ''south'' \<and>
                         route_decision \<in>
                           set [Some ''DOWN_MAIN'', Some ''DOWN_PLATFORM'', Some ''DOWN_SIDING'']);
                    reward =
                      (if is_valid_route
                       then 1 + (if row_priority train_info = ''high'' \<and>
                                    py_in ''MAIN'' (the route_decision)
                                 then 2 else 0)
                       else - 5)
                in Some (e', get_observation e', reward, schedule e' = [], False, []))))"



text \<open>\<open>n\<close> calls of \<^verbatim>\<open>Environment.step\<close>, to look at a run on its way.\<close>

fun steps :: "timing \<Rightarrow> nat \<Rightarrow> sim \<Rightarrow> sim option" where
  "steps tm 0 s = Some s"
| "steps tm (Suc n) s = (case step tm s of None \<Rightarrow> None | Some s' \<Rightarrow> steps tm n s')"

section \<open>The speed control of the web application\<close>




section \<open>Evaluating the model\<close>

lemmas sim_defs =
  step_def fire_def resume_train_def resume_path_def enter_segment_def check_def
  process_train_def schedule_event_def log_event_def trigger_put_def request_def cancel_def
  release_def exit_request_def set_pc_def set_count_def set_point_def URGENT_def NORMAL_def
  capacity_def path_map_def path_up_main_def path_up_platform_def path_down_main_def
  path_down_platform_def path_down_siding_def StationSimulation_def Let_def

lemma run_stop: "step tm s = None \<Longrightarrow> run tm s = Some s"
  by (subst run.simps) simp

lemma run_step: "step tm s = Some s' \<Longrightarrow> run tm s = run tm s'"
  by (subst run.simps) simp

lemma run_idle:
  assumes "run tm s = Some s'"
  shows "queue s' = []"
  by (rule run.raw_induct [where P = "\<lambda>_ _ y. queue y = []", OF _ assms])
     (auto simp: step_def split: list.splits)




lemma reset_idle: "queue (station (fst (reset e))) = []"
  by (simp add: reset_def StationSimulation_def Let_def)

lemma env_step_idle:
  "env_step tm a e = Some (e', rest) \<Longrightarrow> queue (station e) = [] \<Longrightarrow> queue (station e') = []"
  by (auto simp: env_step_def Let_def dest: run_idle split: list.splits option.splits)

section \<open>Invariants of the kernel\<close>

text \<open>
  Every operation of the model is built from a few elementary updates of the state: an
  event is scheduled, an entry is logged, a generator moves, a point is set, a request
  joins or leaves the queue of a resource, a user leaves a resource, the head of the
  queue of a resource with a free place becomes a user, and the least entry is popped.
  A property of states that each of these keeps is kept by every step, so it holds in
  every state that can be reached from a new station by starting trains, starting
  runners, scheduling the stop of a bounded run, and stepping.
\<close>

definition stable :: "(sim \<Rightarrow> bool) \<Rightarrow> bool" where
  "stable P \<longleftrightarrow>
     (\<forall>ev p d s. P s \<longrightarrow> P (schedule_event ev p d s)) \<and>
     (\<forall>tid dir e d s. P s \<longrightarrow> P (log_event tid dir e d s)) \<and>
     (\<forall>f s. P s \<longrightarrow> P (s\<lparr>procs := f\<rparr>)) \<and>
     (\<forall>f s. P s \<longrightarrow> P (s\<lparr>points := f\<rparr>)) \<and>
     (\<forall>f s. P s \<longrightarrow> P (s\<lparr>runners := f\<rparr>)) \<and>
     (\<forall>r q s. P s \<longrightarrow>
        P (s\<lparr>resources := (resources s)(r := (resources s r)\<lparr>put_queue := q\<rparr>)\<rparr>)) \<and>
     (\<forall>r t s. P s \<longrightarrow>
        P (s\<lparr>resources := (resources s)
             (r := (resources s r)\<lparr>users := remove1 t (users (resources s r))\<rparr>)\<rparr>)) \<and>
     (\<forall>r t q s. P s \<longrightarrow> length (users (resources s r)) < capacity \<longrightarrow>
        P (s\<lparr>resources := (resources s)
             (r := \<lparr>users = users (resources s r) @ [t], put_queue = q\<rparr>)\<rparr>)) \<and>
     (\<forall>k ev rest s. P s \<longrightarrow> queue s = (k, ev) # rest \<longrightarrow>
        P (s\<lparr>now := fst k, queue := rest\<rparr>))"

lemma stable_schedule_event: "stable P \<Longrightarrow> P s \<Longrightarrow> P (schedule_event ev p d s)"
  by (simp add: stable_def)

lemma stable_log_event: "stable P \<Longrightarrow> P s \<Longrightarrow> P (log_event tid dir e d s)"
  by (simp add: stable_def)

lemma stable_set_pc: "stable P \<Longrightarrow> P s \<Longrightarrow> P (set_pc t v s)"
  by (simp add: stable_def set_pc_def)

lemma stable_set_count: "stable P \<Longrightarrow> P s \<Longrightarrow> P (set_count t c s)"
  by (simp add: stable_def set_count_def)

lemma stable_set_point: "stable P \<Longrightarrow> P s \<Longrightarrow> P (set_point v x s)"
  by (simp add: stable_def set_point_def)

lemma stable_trigger_put: "stable P \<Longrightarrow> P s \<Longrightarrow> P (trigger_put r s)"
  unfolding trigger_put_def
  by (auto simp: stable_def split: list.splits)

lemma stable_request: "stable P \<Longrightarrow> P s \<Longrightarrow> P (request t r s)"
  unfolding request_def
  by (rule stable_trigger_put) (auto simp: stable_def)

lemma stable_cancel: "stable P \<Longrightarrow> P s \<Longrightarrow> P (cancel t r s)"
  by (simp add: stable_def cancel_def)

lemma stable_release: "stable P \<Longrightarrow> P s \<Longrightarrow> P (release t r s)"
  unfolding release_def
  by (rule stable_schedule_event) (auto simp: stable_def)

lemma stable_exit_request: "stable P \<Longrightarrow> P s \<Longrightarrow> P (exit_request t r s)"
  by (simp add: exit_request_def stable_release stable_cancel)

lemma stable_pop:
  "stable P \<Longrightarrow> P s \<Longrightarrow> queue s = (k, ev) # rest \<Longrightarrow> P (s\<lparr>now := fst k, queue := rest\<rparr>)"
  unfolding stable_def by blast

lemma stable_fold:
  "(\<And>x s. P s \<Longrightarrow> P (f x s)) \<Longrightarrow> P s \<Longrightarrow> P (fold f xs s)"
  by (induction xs arbitrary: s) auto

lemmas stable_intros = stable_schedule_event stable_log_event stable_set_pc stable_set_count
  stable_set_point stable_trigger_put stable_request stable_cancel stable_release
  stable_exit_request

lemma stable_enter_segment:
  assumes st: "stable P" and "P s"
  shows "P (enter_segment t p i s)"
  unfolding enter_segment_def using \<open>P s\<close>
  by (auto intro!: stable_intros [OF st] stable_fold [where P = P])

lemma stable_resume_path:
  assumes st: "stable P" and "P s"
  shows "P (resume_path tm t s)"
  unfolding resume_path_def Let_def using \<open>P s\<close>
  by (auto intro!: stable_intros [OF st] stable_enter_segment [OF st] stable_fold [where P = P]
        split: option.splits pc.splits prod.splits)

lemma stable_resume_train:
  assumes st: "stable P" and "P s"
  shows "P (resume_train t s)"
  unfolding resume_train_def Let_def using \<open>P s\<close>
  by (auto intro!: stable_intros [OF st] split: option.splits pc.splits)

lemma stable_check:
  assumes st: "stable P" and "P s"
  shows "P (check t k s)"
  unfolding check_def Let_def using \<open>P s\<close>
  by (auto intro!: stable_intros [OF st])

lemma stable_process_train:
  assumes st: "stable P" and "P s"
  shows "P (process_train tr s)"
  unfolding process_train_def using assms
  by (intro stable_schedule_event [OF st]) (simp add: stable_def)

lemma stable_resume_runner:
  assumes st: "stable P"
  shows "P s \<Longrightarrow> P (resume_runner k cs s)"
proof (induction k cs s rule: resume_runner.induct)
  case (1 k s)
  then show ?case using st
    by (simp add: stable_def)
next
  case (2 k tr cs s)
  then show ?case by (simp add: stable_process_train [OF st])
next
  case (3 k d cs s)
  then show ?case using st
    by (simp add: stable_def)
qed

lemma stable_process_runner:
  assumes st: "stable P" and "P s"
  shows "P (process_runner cs s)"
  unfolding process_runner_def using assms
  by (intro stable_schedule_event [OF st]) (simp add: stable_def)

lemma stable_fire:
  assumes st: "stable P" and "P s"
  shows "P (fire tm ev s)"
  unfolding fire_def using \<open>P s\<close>
  by (auto intro!: stable_resume_path [OF st] stable_resume_train [OF st] stable_check [OF st]
        stable_trigger_put [OF st] stable_resume_runner [OF st]
        split: event.splits resource.splits option.splits)

lemma stable_step:
  assumes st: "stable P" and "P s" and "step tm s = Some s'"
  shows "P s'"
proof (cases "queue s")
  case Nil
  with assms(3) show ?thesis by (simp add: step_def)
next
  case (Cons q rest)
  obtain k ev where q: "q = (k, ev)" by (cases q)
  have "P (s\<lparr>now := fst k, queue := rest\<rparr>)"
    using st \<open>P s\<close> Cons q by (simp add: stable_pop)
  then have "P (fire tm ev (s\<lparr>now := fst k, queue := rest\<rparr>))"
    by (rule stable_fire [OF st])
  with assms(3) Cons q show ?thesis by (simp add: step_def)
qed

inductive reach :: "sim \<Rightarrow> bool" where
  fresh: "reach StationSimulation"
| train: "reach s \<Longrightarrow> reach (process_train tr s)"
| runner: "reach s \<Longrightarrow> reach (process_runner cs s)"
| until: "reach s \<Longrightarrow> reach (schedule_event Until URGENT d s)"
| step: "reach s \<Longrightarrow> step tm s = Some s' \<Longrightarrow> reach s'"

lemma stable_reach:
  assumes "stable P" and "P StationSimulation" and "reach s"
  shows "P s"
  using assms(3)
proof induction
  case fresh
  show ?case by (rule assms(2))
next
  case (train s tr)
  then show ?case by (simp add: stable_process_train [OF assms(1)])
next
  case (runner s cs)
  then show ?case by (simp add: stable_process_runner [OF assms(1)])
next
  case (until s d)
  then show ?case by (simp add: stable_schedule_event [OF assms(1)])
next
  case (step s tm s')
  then show ?case by (auto intro: stable_step [OF assms(1)])
qed


definition time_ordered :: "sim \<Rightarrow> bool" where
  "time_ordered s \<longleftrightarrow>
     sorted (map fst (queue s)) \<and> (\<forall>q \<in> set (queue s). now s \<le> fst (fst q)) \<and>
     sorted (map time (event_log s)) \<and> (\<forall>e \<in> set (event_log s). time e \<le> now s)"

lemma time_ordered_schedule_event:
  "time_ordered s \<Longrightarrow> time_ordered (schedule_event ev p d s)"
  by (auto simp: time_ordered_def schedule_event_def sorted_insort_key set_insort_key)

lemma time_ordered_log_event:
  "time_ordered s \<Longrightarrow> time_ordered (log_event tid dir e d s)"
  by (auto simp: time_ordered_def log_event_def sorted_append)

lemma key_le_time: "(k :: key) \<le> k' \<Longrightarrow> fst k \<le> fst k'"
  by (cases k, cases k') auto

lemma time_ordered_pop:
  assumes "time_ordered s" and "queue s = (k, ev) # rest"
  shows "time_ordered (s\<lparr>now := fst k, queue := rest\<rparr>)"
proof -
  have "\<forall>q \<in> set rest. k \<le> fst q" and "sorted (map fst rest)" and "now s \<le> fst k"
    using assms by (auto simp: time_ordered_def)
  moreover have "\<forall>e \<in> set (event_log s). time e \<le> fst k"
    using assms \<open>now s \<le> fst k\<close> by (auto simp: time_ordered_def intro: order_trans)
  ultimately show ?thesis
    using assms by (auto simp: time_ordered_def dest: key_le_time)
qed

lemma stable_time_ordered: "stable time_ordered"
  unfolding stable_def
proof (intro conjI allI impI)
  fix ev p d s assume "time_ordered s"
  then show "time_ordered (schedule_event ev p d s)" by (rule time_ordered_schedule_event)
next
  fix tid dir e d s assume "time_ordered s"
  then show "time_ordered (log_event tid dir e d s)" by (rule time_ordered_log_event)
next
  fix k :: key and ev rest s assume "time_ordered s" "queue s = (k, ev) # rest"
  then show "time_ordered (s\<lparr>now := fst k, queue := rest\<rparr>)" by (rule time_ordered_pop)
qed (simp_all add: time_ordered_def)

lemma time_ordered_fresh: "time_ordered StationSimulation"
  by (simp add: time_ordered_def StationSimulation_def)

definition mutex :: "sim \<Rightarrow> bool" where
  "mutex s \<longleftrightarrow> (\<forall>r. length (users (resources s r)) \<le> 1)"

lemma mutex_upd:
  "mutex s \<Longrightarrow> length (users v) \<le> 1 \<Longrightarrow> mutex (s\<lparr>resources := (resources s)(r := v)\<rparr>)"
  by (simp add: mutex_def)

lemma mutex_D: "mutex s \<Longrightarrow> length (users (resources s r)) \<le> 1"
  by (simp add: mutex_def)

lemma length_remove1_le: "length (remove1 t xs) \<le> length xs"
  by (simp add: length_remove1)

lemma stable_mutex: "stable mutex"
  unfolding stable_def
proof (intro conjI allI impI)
  fix r t s assume "mutex s"
  then show "mutex (s\<lparr>resources := (resources s)
             (r := (resources s r)\<lparr>users := remove1 t (users (resources s r))\<rparr>)\<rparr>)"
    using mutex_D [of s r] length_remove1_le [of t "users (resources s r)"]
    by (intro mutex_upd) simp_all
next
  fix r t q s assume "mutex s" "length (users (resources s r)) < capacity"
  then show "mutex (s\<lparr>resources := (resources s)
             (r := \<lparr>users = users (resources s r) @ [t], put_queue = q\<rparr>)\<rparr>)"
    by (intro mutex_upd) (simp_all add: capacity_def)
next
  fix r q s assume "mutex s"
  then show "mutex (s\<lparr>resources := (resources s)(r := (resources s r)\<lparr>put_queue := q\<rparr>)\<rparr>)"
    using mutex_D [of s r] by (intro mutex_upd) simp_all
qed (simp_all add: mutex_def schedule_event_def log_event_def)

lemma mutex_fresh: "mutex StationSimulation"
  by (simp add: mutex_def StationSimulation_def)

lemma run_reach:
  assumes "run tm s = Some s'" and "reach s"
  shows "reach s'"
proof -
  have "reach s \<longrightarrow> reach s'"
  proof (rule run.raw_induct [where P = "\<lambda>_ x y. reach x \<longrightarrow> reach y", OF _ assms(1)])
    fix run' :: "timing \<Rightarrow> sim \<Rightarrow> sim option" and tm s y
    assume IH: "\<And>tm s y. run' tm s = Some y \<Longrightarrow> reach s \<longrightarrow> reach y"
      and eq: "(case step tm s of None \<Rightarrow> Some s | Some s' \<Rightarrow> run' tm s') = Some y"
    show "reach s \<longrightarrow> reach y"
    proof (cases "step tm s")
      case None
      with eq show ?thesis by simp
    next
      case (Some s1)
      with eq have "run' tm s1 = Some y" by simp
      from IH [OF this] Some show ?thesis by (auto intro: reach.step)
    qed
  qed
  with assms(2) show ?thesis by simp
qed

lemma steps_numeral [simp]:
  "steps tm (numeral k) s =
     (case step tm s of None \<Rightarrow> None | Some s' \<Rightarrow> steps tm (pred_numeral k) s')"
  by (simp add: numeral_eq_Suc)

lemma steps_reach: "steps tm n s = Some s' \<Longrightarrow> reach s \<Longrightarrow> reach s'"
  by (induction n arbitrary: s) (auto split: option.splits intro: reach.step)











section \<open>Claims\<close>

text \<open>
  C3 (Scenario A). One train with route \<^verbatim>\<open>UP_PLATFORM\<close>, started at time 0 on a
  freshly constructed station, with the crossover constant 10 and the platform dwell
  50: the run returns and the event log is exactly spawned at 0, points_set of P1 and
  P2 to reverse at 0, enter_track L2_Approach at 0, enter_track L1_Platform_2 at 10,
  finished at 60.
\<close>

theorem scenario_A_up_platform:
  assumes "TIME_ON_CROSSOVER tm = 10" and "TIME_AT_PLATFORM tm = 50"
  shows "map_option event_log
          (run tm (process_train
                     \<lparr>t_train_id = i, t_direction = d, t_priority = p,
                      t_route_decision = Some ''UP_PLATFORM''\<rparr> StationSimulation)) =
         Some [\<lparr>time = 0, train_id = i, direction = d, event = ''spawned'',
                 details = Route (Some ''UP_PLATFORM'')\<rparr>,
               \<lparr>time = 0, train_id = i, direction = d, event = ''points_set'',
                 details = Points_set [''P1'', ''P2''] ''reverse''\<rparr>,
               \<lparr>time = 0, train_id = i, direction = d, event = ''enter_track'',
                 details = Enter_track ''L2_Approach''\<rparr>,
               \<lparr>time = 10, train_id = i, direction = d, event = ''enter_track'',
                 details = Enter_track ''L1_Platform_2''\<rparr>,
               \<lparr>time = 60, train_id = i, direction = d, event = ''finished'',
                 details = No_details\<rparr>]"
  using assms by (simp add: run.simps sim_defs)

theorem scenario_A_up_platform_witness:
  "TIME_ON_CROSSOVER module_constants = 10 \<and> TIME_AT_PLATFORM module_constants = 50 \<and>
   map_option event_log
     (run module_constants
        (process_train
           \<lparr>t_train_id = ''N1(P)'', t_direction = ''north'', t_priority = ''low'',
            t_route_decision = Some ''UP_PLATFORM''\<rparr> StationSimulation)) =
   Some [\<lparr>time = 0, train_id = ''N1(P)'', direction = ''north'', event = ''spawned'',
           details = Route (Some ''UP_PLATFORM'')\<rparr>,
         \<lparr>time = 0, train_id = ''N1(P)'', direction = ''north'', event = ''points_set'',
           details = Points_set [''P1'', ''P2''] ''reverse''\<rparr>,
         \<lparr>time = 0, train_id = ''N1(P)'', direction = ''north'', event = ''enter_track'',
           details = Enter_track ''L2_Approach''\<rparr>,
         \<lparr>time = 10, train_id = ''N1(P)'', direction = ''north'', event = ''enter_track'',
           details = Enter_track ''L1_Platform_2''\<rparr>,
         \<lparr>time = 60, train_id = ''N1(P)'', direction = ''north'', event = ''finished'',
           details = No_details\<rparr>]"
  using scenario_A_up_platform [of module_constants "''N1(P)''" "''north''" "''low''"]
  by (simp add: module_constants_def)





text \<open>
  C10. \<^verbatim>\<open>step\<close> on an empty schedule returns the observation [0, 0], reward 0,
  done true, truncated false and the empty info, and the environment after the call is
  the environment before it: no train is started, virtual time does not move, the event
  log is the same.
\<close>

theorem step_empty_schedule:
  assumes "schedule e = []"
  shows "env_step tm act e = Some (e, [0, 0], 0, True, False, [])"
  using assms by (simp add: env_step_def get_observation_def)

theorem step_empty_schedule_witness:
  "schedule \<lparr>schedule_file = [], schedule = [], station = StationSimulation\<rparr> = [] \<and>
   env_step module_constants (Py_int 0)
     \<lparr>schedule_file = [], schedule = [], station = StationSimulation\<rparr> =
   Some (\<lparr>schedule_file = [], schedule = [], station = StationSimulation\<rparr>,
         [0, 0], 0, True, False, [])"
  using step_empty_schedule
    [of "\<lparr>schedule_file = [], schedule = [], station = StationSimulation\<rparr>"
        module_constants "Py_int 0"]
  by simp


text \<open>
  C8. In every state that can be reached from a new station (trains and runners started
  at any moment, any number of kernel steps, with any values of the timing constants at
  each step), the times of the event log, read in the order of appending, never
  decrease.
\<close>

theorem event_log_times_nondecreasing:
  assumes "reach s"
  shows "sorted (map time (event_log s))"
proof -
  have "time_ordered s"
    using stable_time_ordered time_ordered_fresh assms by (rule stable_reach)
  then show ?thesis by (simp add: time_ordered_def)
qed

theorem event_log_times_nondecreasing_witness:
  "\<exists>s. run module_constants
          (process_train
             \<lparr>t_train_id = ''N1(P)'', t_direction = ''north'', t_priority = ''low'',
              t_route_decision = Some ''UP_PLATFORM''\<rparr> StationSimulation) = Some s \<and>
       reach s \<and> map time (event_log s) = [0, 0, 0, 10, 60] \<and>
       sorted (map time (event_log s))"
proof -
  let ?s0 = "process_train
             \<lparr>t_train_id = ''N1(P)'', t_direction = ''north'', t_priority = ''low'',
              t_route_decision = Some ''UP_PLATFORM''\<rparr> StationSimulation"
  obtain s where s: "run module_constants ?s0 = Some s"
    and l: "map time (event_log s) = [0, 0, 0, 10, 60]"
    using scenario_A_up_platform [of module_constants "''N1(P)''" "''north''" "''low''"]
    by (auto simp: module_constants_def)
  have r: "reach s"
    using s by (rule run_reach) (intro reach.train reach.fresh)
  from event_log_times_nondecreasing [OF r] s r l show ?thesis
    by (intro exI [of _ s]) simp
qed







end
